theory Spec2Isabelle
  imports Main "HOL-Library.AList"
begin

section \<open>Python values shared by the cogs\<close>

text \<open>
  Exceptions of the Python code are values; a function that can raise returns a sum
  whose left injection is the exception. \<open>HTTPException\<close> stands for discord's
  transport failures (\<open>Forbidden\<close> and \<open>NotFound\<close> are subclasses of it and the code
  modelled here never tells them apart), \<open>ClientResponseError\<close> is the failure of a
  call to the site and carries the HTTP status. \<open>ScheduleError\<close> is the caller error of
  the scheduler (see there).
\<close>

datatype py_error =
    RuntimeError
  | TypeError
  | IndexError
  | KeyError
  | AttributeError
  | ValueError
  | HTTPException
  | ClientResponseError int
  | NoStarboardException
  | EmptyPaginatorEmbed
  | ScheduleError

text \<open>
  Python list indexing: \<open>xs[i]\<close> accepts \<open>-len(xs) \<le> i < len(xs)\<close>, a negative index
  counting from the end, and raises \<open>IndexError\<close> otherwise.
\<close>

definition list_position :: "'a list \<Rightarrow> int \<Rightarrow> nat option" where
  "list_position xs i =
     (if 0 \<le> i \<and> i < int (length xs) then Some (nat i)
      else if i < 0 \<and> - int (length xs) \<le> i then Some (nat (int (length xs) + i))
      else None)"

definition py_index :: "'a list \<Rightarrow> int \<Rightarrow> py_error + 'a" where
  "py_index xs i = (case list_position xs i of None \<Rightarrow> Inl IndexError | Some j \<Rightarrow> Inr (xs ! j))"

section \<open>bot/pagination.py\<close>

subsection \<open>LinePaginator: packing lines into pages\<close>

text \<open>
  The fields of \<open>LinePaginator\<close>; the four private ones (\<open>_current_page\<close>,
  \<open>_linecount\<close>, \<open>_count\<close>, \<open>_pages\<close>) carry the prefix \<open>pg_\<close>. Python's \<open>len\<close> of
  a string is \<open>length\<close> here, one \<open>char\<close> per code point. \<open>empty'\<close> is the keyword
  argument \<open>empty\<close>.
\<close>

record line_paginator =
  prefix :: string
  suffix :: string
  max_size :: int
  max_lines :: "int option"
  pg_current_page :: "string list"
  pg_linecount :: int
  pg_count :: int
  pg_pages :: "string list"

definition newline :: char where
  "newline = CHR 0x0A"

text \<open>\<open>'\n'.join(parts)\<close>.\<close>

fun join_nl :: "string list \<Rightarrow> string" where
  "join_nl [] = []"
| "join_nl [x] = x"
| "join_nl (x # y # ys) = x @ newline # join_nl (y # ys)"

text \<open>\<open>LinePaginator.__init__\<close>.\<close>

definition LinePaginator_init :: "string \<Rightarrow> string \<Rightarrow> int \<Rightarrow> int option \<Rightarrow> line_paginator" where
  "LinePaginator_init pre suf msize mlines =
     \<lparr> prefix = pre,
       suffix = suf,
       max_size = msize - int (length suf),
       max_lines = mlines,
       pg_current_page = [pre],
       pg_linecount = 0,
       pg_count = int (length pre) + 1,
       pg_pages = [] \<rparr>"

text \<open>
  \<open>close_page\<close> and the property \<open>pages\<close> are inherited from
  \<open>discord.ext.commands.Paginator\<close>: \<open>close_page\<close> appends the suffix, stores the
  joined page and starts a new page holding the prefix; \<open>pages\<close> closes the current
  page first when it holds more than the prefix.
\<close>

definition close_page :: "line_paginator \<Rightarrow> line_paginator" where
  "close_page p =
     p\<lparr> pg_pages := pg_pages p @ [join_nl (pg_current_page p @ [suffix p])],
        pg_current_page := [prefix p],
        pg_count := int (length (prefix p)) + 1 \<rparr>"

definition pages :: "line_paginator \<Rightarrow> string list" where
  "pages p = pg_pages (if length (pg_current_page p) > 1 then close_page p else p)"

text \<open>
  \<open>LinePaginator.add_line\<close>: the size check that raises, the line-count check, the
  page-size check, the append, and the optional empty line.
\<close>

definition add_line :: "string \<Rightarrow> bool \<Rightarrow> line_paginator \<Rightarrow> py_error + line_paginator" where
  "add_line line empty' p =
     (if int (length line) > max_size p - int (length (prefix p)) - 2 then Inl RuntimeError
      else
        let p1 = (case max_lines p of
                    None \<Rightarrow> p
                  | Some ml \<Rightarrow>
                      let q = (if pg_linecount p \<ge> ml
                               then close_page (p\<lparr> pg_linecount := 0 \<rparr>) else p)
                      in q\<lparr> pg_linecount := pg_linecount q + 1 \<rparr>);
            p2 = (if pg_count p1 + int (length line) + 1 > max_size p1
                  then close_page p1 else p1);
            p3 = p2\<lparr> pg_count := pg_count p2 + (int (length line) + 1),
                     pg_current_page := pg_current_page p2 @ [line] \<rparr>
        in Inr (if empty'
                then p3\<lparr> pg_current_page := pg_current_page p3 @ [''''],
                         pg_count := pg_count p3 + 1 \<rparr>
                else p3))"

text \<open>The loop \<open>for line in lines: paginator.add_line(line, empty=empty)\<close> of \<open>paginate\<close>.\<close>

fun add_lines :: "string list \<Rightarrow> bool \<Rightarrow> line_paginator \<Rightarrow> py_error + line_paginator" where
  "add_lines [] empty' p = Inr p"
| "add_lines (line # rest) empty' p =
     (case add_line line empty' p of
        Inl e \<Rightarrow> Inl e
      | Inr p' \<Rightarrow> add_lines rest empty' p')"

subsection \<open>The reaction loops of LinePaginator and ImagePaginator\<close>

text \<open>
  The five emoji constants. \<open>event_check\<close> lets \<open>wait_for\<close> return only reactions whose
  emoji is in \<open>PAGINATION_EMOJI\<close>, so an accepted event is one of these five.
\<close>

datatype emoji = FIRST_EMOJI | LEFT_EMOJI | RIGHT_EMOJI | LAST_EMOJI | DELETE_EMOJI

definition PAGINATION_EMOJI :: "emoji list" where
  "PAGINATION_EMOJI = [FIRST_EMOJI, LEFT_EMOJI, RIGHT_EMOJI, LAST_EMOJI, DELETE_EMOJI]"

text \<open>
  The embed as far as the loops change it. The footer \<open>f"{footer_text} (Page i/N)"\<close> or
  \<open>f"Page i/N"\<close> is kept as its three parts.
\<close>

datatype footer = NoFooter | PageFooter "string option" int int

record embed =
  description :: string
  emb_footer :: footer
  emb_image :: "string option"

text \<open>
  The message is outside the program. It is modelled by the list of operations applied
  to it so far; \<open>faulty k\<close> tells whether the operation attempted after \<open>k\<close>
  successful ones fails, in which case discord.py raises \<open>HTTPException\<close>.
\<close>

datatype msg_op = AddReaction emoji | RemoveReaction emoji | Edit embed | ClearReactions

definition message_do :: "(nat \<Rightarrow> bool) \<Rightarrow> msg_op \<Rightarrow> msg_op list \<Rightarrow> py_error + msg_op list" where
  "message_do faulty op done = (if faulty (length done) then Inl HTTPException else Inr (done @ [op]))"

text \<open>The local variables of \<open>paginate\<close> that the loop updates, and the message.\<close>

record view =
  current_page :: int
  shown :: embed
  sent :: "msg_op list"

text \<open>
  A loop body ends in \<open>break\<close> or goes on to the next iteration, in both cases with the
  state it has reached.
\<close>

datatype 'a flow = Break 'a | Continue 'a

definition remove_reaction :: "(nat \<Rightarrow> bool) \<Rightarrow> emoji \<Rightarrow> view \<Rightarrow> py_error + view" where
  "remove_reaction faulty e v =
     (case message_do faulty (RemoveReaction e) (sent v) of
        Inl err \<Rightarrow> Inl err
      | Inr s \<Rightarrow> Inr (v\<lparr> sent := s \<rparr>))"







text \<open>
  \<open>ImagePaginator.paginate\<close>: the part after the emoji tests (``Magic happens here'').
\<close>

definition image_show_page ::
  "(nat \<Rightarrow> bool) \<Rightarrow> string list \<Rightarrow> string list \<Rightarrow> view \<Rightarrow> py_error + view flow" where
  "image_show_page faulty pgs images v =
     (let blank = (shown v)\<lparr> description := [] \<rparr> in
      case message_do faulty (Edit blank) (sent v) of
        Inl err \<Rightarrow> Inl err
      | Inr s1 \<Rightarrow>
          (case py_index pgs (current_page v) of
             Inl err \<Rightarrow> Inl err
           | Inr pg \<Rightarrow>
               (case py_index images (current_page v) of
                  Inl err \<Rightarrow> Inl err
                | Inr image' \<Rightarrow>
                    let em0 = blank\<lparr> description := pg \<rparr>;
                        em1 = (if image' \<noteq> [] then em0\<lparr> emb_image := Some image' \<rparr> else em0);
                        em = em1\<lparr> emb_footer := PageFooter None (current_page v + 1)
                                                (int (length pgs)) \<rparr>
                    in (case message_do faulty (Edit em) s1 of
                          Inl err \<Rightarrow> Inl err
                        | Inr s2 \<Rightarrow> Inr (Continue (v\<lparr> shown := em, sent := s2 \<rparr>))))))"

text \<open>
  One iteration of the loop of \<open>ImagePaginator.paginate\<close>. The reaction is removed first,
  also for the close emoji. In the branch for \<open>LAST_EMOJI\<close> the source evaluates
  \<open>len(paginator.pages - 1)\<close>: the subtraction of an \<open>int\<close> from a \<open>list\<close> raises
  \<open>TypeError\<close>.
\<close>

definition image_turn ::
  "(nat \<Rightarrow> bool) \<Rightarrow> string list \<Rightarrow> string list \<Rightarrow> emoji \<Rightarrow> view \<Rightarrow> py_error + view flow" where
  "image_turn faulty pgs images e v =
     (case remove_reaction faulty e v of
        Inl err \<Rightarrow> Inl err
      | Inr v1 \<Rightarrow>
          (case e of
             DELETE_EMOJI \<Rightarrow> Inr (Break v1)
           | FIRST_EMOJI \<Rightarrow>
               if current_page v1 = 0 then Inr (Continue v1)
               else image_show_page faulty pgs images (v1\<lparr> current_page := 0 \<rparr>)
           | LAST_EMOJI \<Rightarrow>
               if current_page v1 \<ge> int (length pgs) - 1 then Inr (Continue v1)
               else Inl TypeError
           | LEFT_EMOJI \<Rightarrow>
               if current_page v1 \<le> 0 then Inr (Continue v1)
               else image_show_page faulty pgs images (v1\<lparr> current_page := current_page v1 - 1 \<rparr>)
           | RIGHT_EMOJI \<Rightarrow>
               if current_page v1 \<ge> int (length pgs) - 1 then Inr (Continue v1)
               else image_show_page faulty pgs images
                      (v1\<lparr> current_page := current_page v1 + 1 \<rparr>)))"



section \<open>bot/utils/scheduling.py and bot/cogs/reminders.py\<close>

text \<open>
  A reminder as the site returns it. \<open>expiration\<close> is the instant
  \<open>datetime.fromisoformat(reminder['expiration'][:-1])\<close>, as a number; \<open>relativedelta(now,
  remind_at)\<close> is the difference of two such numbers.
\<close>

record reminder =
  rem_id :: int
  author :: int
  channel_id :: int
  content :: string
  expiration :: int

text \<open>
  What the bot sends: the reminder itself (channel, mentioned user, content, and how late
  it is when the embed says so), or the reply to a command.
\<close>

datatype reply = CantDoThatHere | TooManyReminders | CreatedSuccessfully

datatype outgoing =
    ReminderMessage int int string "int option"
  | Reply int reply

text \<open>
  The site, the discord channels and the clock are outside the program. The state holds
  the site's table of reminders and the id it gives to the next one, the clock, the
  channels and users the bot can resolve, what has been sent, the scheduler's map
  \<open>scheduled_tasks\<close>, and the record of calls. \<open>faults\<close> tells which external calls fail.
\<close>

datatype call = ApiGet | ApiPost | ApiDelete int | ChannelSend int

text \<open>
  A record of what was called, for the statements only: \<open>calls\<close> lists in order every
  invocation of \<open>send_reminder\<close> (reminder id and the argument \<open>late\<close>), of \<open>schedule_task\<close>
  and of \<open>cancel_task\<close>. No function reads it.
\<close>

datatype cog_call =
    SendReminder int "int option"
  | ScheduleTask int reminder
  | CancelTask int

record world =
  site :: "reminder list"
  next_id :: int
  clock :: int
  channels :: "int list"
  users :: "int list"
  delivered :: "outgoing list"
  scheduled_tasks :: "(int \<times> reminder) list"
  calls :: "cog_call list"
  faults :: "call \<Rightarrow> bool"

text \<open>
  The calls to the site (\<open>self.bot.api_client\<close>): \<open>get\<close> with \<open>active=true\<close>, \<open>get\<close> with
  \<open>user__id\<close>, \<open>post\<close>, \<open>delete\<close>. A \<open>delete\<close> of a record that is not there is answered
  with status 404, which the client raises.
\<close>

definition api_get_active :: "world \<Rightarrow> (py_error + reminder list) \<times> world" where
  "api_get_active w =
     (if faults w ApiGet then (Inl (ClientResponseError 500), w) else (Inr (site w), w))"

definition api_get_user :: "int \<Rightarrow> world \<Rightarrow> (py_error + reminder list) \<times> world" where
  "api_get_user uid w =
     (if faults w ApiGet then (Inl (ClientResponseError 500), w)
      else (Inr (filter (\<lambda>r. author r = uid) (site w)), w))"

definition api_post ::
  "int \<Rightarrow> int \<Rightarrow> string \<Rightarrow> int \<Rightarrow> world \<Rightarrow> (py_error + reminder) \<times> world" where
  "api_post a c txt exp w =
     (if faults w ApiPost then (Inl (ClientResponseError 500), w)
      else
        let r = \<lparr> rem_id = next_id w, author = a, channel_id = c, content = txt,
                  expiration = exp \<rparr>
        in (Inr r, w\<lparr> site := site w @ [r], next_id := next_id w + 1 \<rparr>))"

definition api_delete :: "int \<Rightarrow> world \<Rightarrow> (py_error + unit) \<times> world" where
  "api_delete rid w =
     (if faults w (ApiDelete rid) then (Inl (ClientResponseError 500), w)
      else if rid \<notin> set (map rem_id (site w)) then (Inl (ClientResponseError 404), w)
      else (Inr (), w\<lparr> site := filter (\<lambda>r. rem_id r \<noteq> rid) (site w) \<rparr>))"

text \<open>\<open>channel.send\<close> and \<open>ctx.send\<close>.\<close>

definition channel_send :: "int \<Rightarrow> outgoing \<Rightarrow> world \<Rightarrow> (py_error + unit) \<times> world" where
  "channel_send c msg w =
     (if faults w (ChannelSend c) then (Inl HTTPException, w)
      else (Inr (), w\<lparr> delivered := delivered w @ [msg] \<rparr>))"

text \<open>
  Modelled from the spec: \<open>Scheduler.schedule_task\<close> and \<open>Scheduler.cancel_task\<close> of
  bot/utils/scheduling.py, the base class of the Reminders cog, which is not among the
  sources. The spec has the scheduler keep a map from task id to the deferred execution;
  \<open>schedule\<close> on an id that already has a live entry is a caller error and never
  replaces the entry; \<open>cancel\<close> removes the entry and is a no-op on an id without one.
  The deferred execution that an entry stands for is run by \<open>task_executor\<close> (below).
\<close>

definition schedule_task :: "int \<Rightarrow> reminder \<Rightarrow> world \<Rightarrow> (py_error + unit) \<times> world" where
  "schedule_task task_id task_data w =
     (let w0 = w\<lparr> calls := calls w @ [ScheduleTask task_id task_data] \<rparr> in
      if task_id \<in> set (map fst (scheduled_tasks w0)) then (Inl ScheduleError, w0)
      else (Inr (), w0\<lparr> scheduled_tasks := scheduled_tasks w0 @ [(task_id, task_data)] \<rparr>))"

definition cancel_task :: "int \<Rightarrow> world \<Rightarrow> world" where
  "cancel_task task_id w =
     w\<lparr> calls := calls w @ [CancelTask task_id],
        scheduled_tasks := filter (\<lambda>entry. fst entry \<noteq> task_id) (scheduled_tasks w) \<rparr>"

text \<open>
  \<open>new_reminder\<close> reads \<open>STAFF_ROLES\<close>, which the module neither defines nor imports, and
  \<open>Channels.bot\<close>, which bot/constants.py as given does not define. Both are parameters.
\<close>

record config =
  STAFF_ROLES :: "int list"
  Channels_bot :: int

definition WHITELISTED_CHANNELS :: "config \<Rightarrow> int list" where
  "WHITELISTED_CHANNELS cfg = [Channels_bot cfg]"

definition MAXIMUM_REMINDERS :: int where
  "MAXIMUM_REMINDERS = 5"

text \<open>What \<open>new_reminder\<close> reads from \<open>ctx\<close>.\<close>

record cmd_context =
  ctx_author :: int
  ctx_top_role :: int
  ctx_channel :: int

text \<open>\<open>Reminders._delete_reminder\<close>.\<close>

definition delete_reminder :: "int \<Rightarrow> world \<Rightarrow> (py_error + unit) \<times> world" where
  "delete_reminder reminder_id w =
     (case api_delete reminder_id w of
        (Inl e, w1) \<Rightarrow> (Inl e, w1)
      | (Inr u, w1) \<Rightarrow> (Inr (), cancel_task reminder_id w1))"

text \<open>
  \<open>Reminders.send_reminder\<close>. \<open>get_channel\<close> and \<open>get_user\<close> return \<open>None\<close> for an id
  the bot cannot resolve, and the attribute access on \<open>None\<close> raises. \<open>if late:\<close> is
  false for \<open>None\<close> and for a zero difference.
\<close>

definition send_reminder :: "reminder \<Rightarrow> int option \<Rightarrow> world \<Rightarrow> (py_error + unit) \<times> world" where
  "send_reminder r late w =
     (let w0 = w\<lparr> calls := calls w @ [SendReminder (rem_id r) late] \<rparr> in
      if channel_id r \<notin> set (channels w0) then (Inl AttributeError, w0)
      else if author r \<notin> set (users w0) then (Inl AttributeError, w0)
      else
        let shown_late = (case late of None \<Rightarrow> None
                          | Some d \<Rightarrow> if d \<noteq> 0 then Some d else None)
        in case channel_send (channel_id r)
                  (ReminderMessage (channel_id r) (author r) (content r) shown_late) w0 of
             (Inl e, w1) \<Rightarrow> (Inl e, w1)
           | (Inr u, w1) \<Rightarrow> delete_reminder (rem_id r) w1)"



text \<open>\<open>Reminders.on_ready\<close>: the body of the \<open>for\<close> loop, the loop, and the handler.\<close>

definition recover_one :: "int \<Rightarrow> reminder \<Rightarrow> world \<Rightarrow> (py_error + unit) \<times> world" where
  "recover_one now r w =
     (if expiration r < now then send_reminder r (Some (now - expiration r)) w
      else schedule_task (rem_id r) r w)"

fun recover_all :: "int \<Rightarrow> reminder list \<Rightarrow> world \<Rightarrow> (py_error + unit) \<times> world" where
  "recover_all now [] w = (Inr (), w)"
| "recover_all now (r # rs) w =
     (case recover_one now r w of
        (Inl e, w1) \<Rightarrow> (Inl e, w1)
      | (Inr u, w1) \<Rightarrow> recover_all now rs w1)"

definition on_ready :: "world \<Rightarrow> (py_error + unit) \<times> world" where
  "on_ready w =
     (case api_get_active w of
        (Inl e, w1) \<Rightarrow> (Inl e, w1)
      | (Inr response, w1) \<Rightarrow> recover_all (clock w1) response w1)"

definition ctx_send :: "cmd_context \<Rightarrow> reply \<Rightarrow> world \<Rightarrow> (py_error + unit) \<times> world" where
  "ctx_send ctx msg w = channel_send (ctx_channel ctx) (Reply (ctx_channel ctx) msg) w"

text \<open>
  \<open>Reminders.new_reminder\<close>. The command returns the refusal it has sent, or \<open>None\<close>
  after creating the reminder.
\<close>

definition new_reminder ::
  "config \<Rightarrow> cmd_context \<Rightarrow> int \<Rightarrow> string \<Rightarrow> world
     \<Rightarrow> (py_error + reply option) \<times> world" where
  "new_reminder cfg ctx expiration' content' w =
     (let checked =
            (if ctx_top_role ctx \<notin> set (STAFF_ROLES cfg) then
               if ctx_channel ctx \<notin> set (WHITELISTED_CHANNELS cfg)
               then (Inr (Some CantDoThatHere), w)
               else
                 (case api_get_user (ctx_author ctx) w of
                    (Inl e, w1) \<Rightarrow> (Inl e, w1)
                  | (Inr active_reminders, w1) \<Rightarrow>
                      if int (length active_reminders) > MAXIMUM_REMINDERS
                      then (Inr (Some TooManyReminders), w1)
                      else (Inr None, w1))
             else (Inr None, w))
      in case checked of
           (Inl e, w1) \<Rightarrow> (Inl e, w1)
         | (Inr (Some refusal), w1) \<Rightarrow>
             (case ctx_send ctx refusal w1 of
                (Inl e, w2) \<Rightarrow> (Inl e, w2)
              | (Inr u, w2) \<Rightarrow> (Inr (Some refusal), w2))
         | (Inr None, w1) \<Rightarrow>
             (case api_post (ctx_author ctx) (ctx_channel ctx) content' expiration' w1 of
                (Inl e, w2) \<Rightarrow> (Inl e, w2)
              | (Inr r, w2) \<Rightarrow>
                  (case ctx_send ctx CreatedSuccessfully w2 of
                     (Inl e, w3) \<Rightarrow> (Inl e, w3)
                   | (Inr u, w3) \<Rightarrow>
                       (case schedule_task (rem_id r) r w3 of
                          (Inl e, w4) \<Rightarrow> (Inl e, w4)
                        | (Inr u, w4) \<Rightarrow> (Inr None, w4)))))"

text \<open>The same user invoking the command \<open>n\<close> times in a row.\<close>

fun new_reminders ::
  "nat \<Rightarrow> config \<Rightarrow> cmd_context \<Rightarrow> int \<Rightarrow> string \<Rightarrow> world
     \<Rightarrow> (py_error + reply option) list \<times> world" where
  "new_reminders 0 cfg ctx exp txt w = ([], w)"
| "new_reminders (Suc n) cfg ctx exp txt w =
     (case new_reminder cfg ctx exp txt w of
        (res, w1) \<Rightarrow>
          (case new_reminders n cfg ctx exp txt w1 of
             (rest, w2) \<Rightarrow> (res # rest, w2)))"

section \<open>bot/cogs/starboard.py\<close>

text \<open>
  \<open>star_msg_map\<close> is \<open>{}\<close> after \<open>__init__\<close> and is assigned \<open>[]\<close> by the wipe command, so
  the attribute holds a dict or a list. The operations below are the ones the cog applies
  to it, with Python's behaviour on each of the two.
\<close>

datatype py_cache = PyDict "(int \<times> int) list" | PyList "int list"

definition cache_getitem :: "py_cache \<Rightarrow> int \<Rightarrow> py_error + int" where
  "cache_getitem c k =
     (case c of
        PyDict d \<Rightarrow> (case map_of d k of None \<Rightarrow> Inl KeyError | Some v \<Rightarrow> Inr v)
      | PyList xs \<Rightarrow> py_index xs k)"

definition cache_setitem :: "py_cache \<Rightarrow> int \<Rightarrow> int \<Rightarrow> py_error + py_cache" where
  "cache_setitem c k v =
     (case c of
        PyDict d \<Rightarrow> Inr (PyDict (AList.update k v d))
      | PyList xs \<Rightarrow>
          (case list_position xs k of
             None \<Rightarrow> Inl IndexError
           | Some j \<Rightarrow> Inr (PyList (xs[j := v]))))"

definition cache_delitem :: "py_cache \<Rightarrow> int \<Rightarrow> py_error + py_cache" where
  "cache_delitem c k =
     (case c of
        PyDict d \<Rightarrow>
          (if k \<in> set (map fst d) then Inr (PyDict (AList.delete k d)) else Inl KeyError)
      | PyList xs \<Rightarrow>
          (case list_position xs k of
             None \<Rightarrow> Inl IndexError
           | Some j \<Rightarrow> Inr (PyList (take j xs @ drop (Suc j) xs))))"

definition cache_contains :: "py_cache \<Rightarrow> int \<Rightarrow> bool" where
  "cache_contains c k =
     (case c of PyDict d \<Rightarrow> k \<in> set (map fst d) | PyList xs \<Rightarrow> k \<in> set xs)"

definition is_dict :: "py_cache \<Rightarrow> bool" where
  "is_dict c = (case c of PyDict d \<Rightarrow> True | PyList xs \<Rightarrow> False)"

text \<open>
  An entry of the site's starboard table (\<open>bot_message_id\<close> may be null), a discord
  message, and the fields of \<open>RawReactionActionEvent\<close> that \<open>get_messages\<close> reads.
\<close>

record star_entry =
  e_bot_message_id :: "int option"
  e_channel_id :: int

record message =
  msg_id :: int
  msg_channel :: int

record reaction_payload =
  p_message_id :: int
  p_channel_id :: int

text \<open>
  The state: the cache, the site's table keyed by the original message id, the channels
  the bot can see with the ids of their messages, the id discord gives to the next
  message, and the external calls that fail.
\<close>

datatype sb_call =
    SiteGet | SitePost | SiteDelete | SiteDeleteAll
  | StarboardSend | StarboardEdit | StarboardDelete

record sb_world =
  star_msg_map :: py_cache
  sb_site :: "(int \<times> star_entry) list"
  guild_channels :: "(int \<times> int list) list"
  next_message_id :: int
  sb_faults :: "sb_call \<Rightarrow> bool"

text \<open>
  The site's answer to \<open>GET ?message_id=...\<close>: a JSON object with or without the key
  \<open>message\<close>, whose value may be null.
\<close>

datatype json_reply = NoMessageKey | MessageKey "star_entry option"

definition site_get_entry :: "int \<Rightarrow> sb_world \<Rightarrow> json_reply" where
  "site_get_entry message_id s =
     (case map_of (sb_site s) message_id of
        None \<Rightarrow> NoMessageKey
      | Some entry \<Rightarrow> MessageKey (Some entry))"

definition get_channel :: "int \<Rightarrow> sb_world \<Rightarrow> int option" where
  "get_channel cid s = (if cid \<in> set (map fst (guild_channels s)) then Some cid else None)"

definition channel_get_message :: "int \<Rightarrow> int \<Rightarrow> sb_world \<Rightarrow> py_error + message" where
  "channel_get_message cid mid s =
     (case map_of (guild_channels s) cid of
        None \<Rightarrow> Inl HTTPException
      | Some ids \<Rightarrow>
          if mid \<in> set ids then Inr \<lparr> msg_id = mid, msg_channel = cid \<rparr>
          else Inl HTTPException)"

text \<open>
  \<open>Starboard.get_messages\<close>. Only \<open>KeyError\<close> from the cache lookup leads to the site;
  any other exception leaves the method.
\<close>

definition get_messages ::
  "reaction_payload \<Rightarrow> int option \<Rightarrow> sb_world
     \<Rightarrow> (py_error + message \<times> message option) \<times> sb_world" where
  "get_messages payload starboard s =
     (case starboard of
        None \<Rightarrow> (Inl NoStarboardException, s)
      | Some sb \<Rightarrow>
          (case get_channel (p_channel_id payload) s of
             None \<Rightarrow> (Inl AttributeError, s)
           | Some original_channel \<Rightarrow>
               (case channel_get_message original_channel (p_message_id payload) s of
                  Inl e \<Rightarrow> (Inl e, s)
                | Inr original \<Rightarrow>
                    (case cache_getitem (star_msg_map s) (p_message_id payload) of
                       Inr star_msg_id \<Rightarrow>
                         (case channel_get_message sb star_msg_id s of
                            Inl e \<Rightarrow> (Inl e, s)
                          | Inr star_msg \<Rightarrow> (Inr (original, Some star_msg), s))
                     | Inl e \<Rightarrow>
                         if e \<noteq> KeyError then (Inl e, s)
                         else if sb_faults s SiteGet then (Inl (ClientResponseError 500), s)
                         else
                           (case site_get_entry (p_message_id payload) s of
                              NoMessageKey \<Rightarrow> (Inr (original, None), s)
                            | MessageKey None \<Rightarrow> (Inr (original, None), s)
                            | MessageKey (Some entry) \<Rightarrow>
                                (case e_bot_message_id entry of
                                   None \<Rightarrow> (Inr (original, None), s)
                                 | Some star_msg_id \<Rightarrow>
                                     (case channel_get_message sb star_msg_id s of
                                        Inl e' \<Rightarrow> (Inl e', s)
                                      | Inr star_msg \<Rightarrow>
                                          (Inr (original, Some star_msg), s))))))))"

text \<open>
  \<open>Starboard.delete_all_star_entries\<close>: the answer to the confirmation prompt, then the
  request to the site, then the assignment \<open>self.star_msg_map = []\<close>.
\<close>

datatype confirmation = NoReaction | SaidNo | SaidYes

definition delete_all_star_entries ::
  "confirmation \<Rightarrow> sb_world \<Rightarrow> (py_error + unit) \<times> sb_world" where
  "delete_all_star_entries answer s =
     (case answer of
        NoReaction \<Rightarrow> (Inr (), s)
      | SaidNo \<Rightarrow> (Inr (), s)
      | SaidYes \<Rightarrow>
          if sb_faults s SiteDeleteAll then (Inr (), s)
          else (Inr (), s\<lparr> sb_site := [], star_msg_map := PyList [] \<rparr>))"

text \<open>
  \<open>Starboard.async_init\<close>: the loop that fills the cache, and the method. The loop
  assigns into the cache in place, so when an entry makes it raise, the entries before
  it are in the cache already.
\<close>

fun populate ::
  "(int \<times> star_entry) list \<Rightarrow> py_cache \<Rightarrow> (py_error + unit) \<times> py_cache" where
  "populate [] c = (Inr (), c)"
| "populate ((message_id, entry) # rest) c =
     (case e_bot_message_id entry of
        None \<Rightarrow> (Inl TypeError, c)
      | Some v \<Rightarrow>
          (case cache_setitem c message_id v of
             Inl e \<Rightarrow> (Inl e, c)
           | Inr c' \<Rightarrow> populate rest c'))"

definition async_init :: "sb_world \<Rightarrow> (py_error + unit) \<times> sb_world" where
  "async_init s =
     (if sb_faults s SiteGet then (Inl (ClientResponseError 500), s)
      else case populate (sb_site s) (star_msg_map s) of
             (outcome, c) \<Rightarrow> (outcome, s\<lparr> star_msg_map := c \<rparr>))"

text \<open>
  \<open>Starboard.post_to_api\<close>: status 200 stores the entry, 400 means it is stored already,
  any other status deletes the starboard message and returns \<open>False\<close>.
\<close>

definition message_delete :: "message \<Rightarrow> sb_world \<Rightarrow> sb_world" where
  "message_delete m s =
     s\<lparr> guild_channels :=
           map (\<lambda>(cid, ids). (cid, if cid = msg_channel m then removeAll (msg_id m) ids else ids))
             (guild_channels s) \<rparr>"

definition post_to_api :: "message \<Rightarrow> message \<Rightarrow> sb_world \<Rightarrow> bool \<times> sb_world" where
  "post_to_api original star_msg s =
     (if sb_faults s SitePost then (False, message_delete star_msg s)
      else if msg_id original \<in> set (map fst (sb_site s)) then (True, s)
      else (True, s\<lparr> sb_site := sb_site s @
                       [(msg_id original,
                         \<lparr> e_bot_message_id = Some (msg_id star_msg),
                           e_channel_id = msg_channel original \<rparr>)] \<rparr>))"

definition starboard_send :: "int \<Rightarrow> sb_world \<Rightarrow> (py_error + message) \<times> sb_world" where
  "starboard_send sb s =
     (if sb_faults s StarboardSend then (Inl HTTPException, s)
      else
        (Inr \<lparr> msg_id = next_message_id s, msg_channel = sb \<rparr>,
         s\<lparr> guild_channels :=
               map (\<lambda>(cid, ids). (cid, if cid = sb then ids @ [next_message_id s] else ids))
                 (guild_channels s),
            next_message_id := next_message_id s + 1 \<rparr>))"

text \<open>\<open>Starboard.post_new_entry\<close>.\<close>

definition post_new_entry :: "message \<Rightarrow> int \<Rightarrow> sb_world \<Rightarrow> (py_error + unit) \<times> sb_world" where
  "post_new_entry original starboard s =
     (case starboard_send starboard s of
        (Inl e, s1) \<Rightarrow> (Inr (), s1)
      | (Inr star_msg, s1) \<Rightarrow>
          (case post_to_api original star_msg s1 of
             (False, s2) \<Rightarrow> (Inr (), s2)
           | (True, s2) \<Rightarrow>
               (case cache_setitem (star_msg_map s2) (msg_id original) (msg_id star_msg) of
                  Inl e \<Rightarrow> (Inl e, s2)
                | Inr c \<Rightarrow> (Inr (), s2\<lparr> star_msg_map := c \<rparr>))))"

text \<open>
  \<open>Starboard.change_starcount\<close> after the content of the edit has been computed: the
  edit (a failure is caught and ends the method), the back-fill of the cache, and the
  check that the site has the entry.
\<close>

definition change_starcount ::
  "int \<Rightarrow> message \<Rightarrow> message \<Rightarrow> sb_world \<Rightarrow> (py_error + unit) \<times> sb_world" where
  "change_starcount starboard original star_msg s =
     (if sb_faults s StarboardEdit then (Inr (), s)
      else
        (case (if \<not> cache_contains (star_msg_map s) (msg_id original)
               then cache_setitem (star_msg_map s) (msg_id original) (msg_id star_msg)
               else Inr (star_msg_map s)) of
           Inl e \<Rightarrow> (Inl e, s)
         | Inr c \<Rightarrow>
             let s1 = s\<lparr> star_msg_map := c \<rparr> in
             if sb_faults s1 SiteGet then (Inl (ClientResponseError 500), s1)
             else if msg_id original \<in> set (map fst (sb_site s1)) then (Inr (), s1)
             else (Inr (), snd (post_to_api original star_msg s1))))"

text \<open>
  \<open>Starboard.delete_star\<close>: the starboard message is deleted (a failure is caught), then
  the entry on the site; on status 200 the id is deleted from the cache, a \<open>KeyError\<close>
  being caught.
\<close>

definition delete_star :: "message \<Rightarrow> message \<Rightarrow> sb_world \<Rightarrow> (py_error + unit) \<times> sb_world" where
  "delete_star original star s =
     (let s1 = (if sb_faults s StarboardDelete then s else message_delete star s) in
      if sb_faults s1 SiteDelete \<or> msg_id original \<notin> set (map fst (sb_site s1))
      then (Inr (), s1)
      else
        let s2 = s1\<lparr> sb_site := AList.delete (msg_id original) (sb_site s1) \<rparr> in
        case cache_delitem (star_msg_map s2) (msg_id original) of
          Inl e \<Rightarrow> if e = KeyError then (Inr (), s2) else (Inl e, s2)
        | Inr c \<Rightarrow> (Inr (), s2\<lparr> star_msg_map := c \<rparr>))"

section \<open>bot/cogs/sync/cog.py\<close>

text \<open>
  The fields of \<open>discord.Member\<close> and \<open>discord.Role\<close> that the handler reads.
  \<open>discriminator\<close> is a string in discord.py; the handler converts it with \<open>int(...)\<close>.
\<close>

record role =
  role_id :: int
  role_name :: string

record member =
  member_id :: int
  member_name :: string
  avatar :: "string option"
  discriminator :: string
  roles :: "role list"

text \<open>The JSON body of a user update, one field per key of the dict literal.\<close>

record user_json =
  j_avatar_hash :: "string option"
  j_discriminator :: int
  j_id :: int
  j_in_guild :: bool
  j_name :: string
  j_roles :: "int list"

text \<open>
  The endpoints are strings in the source (\<open>'bot/users/' + str(member.id)\<close>); here each
  string pattern is a constructor that carries the id.
\<close>

datatype endpoint = BotUsers | BotUsersId int

datatype api_request = Put endpoint user_json | Post endpoint user_json

text \<open>
  \<open>int(s)\<close> on a string of decimal digits. Discord discriminators are four decimal
  digits; on any other string this model raises \<open>ValueError\<close> (Python also accepts signs,
  blanks and underscores, which a discriminator never has).
\<close>

definition is_digit :: "char \<Rightarrow> bool" where
  "is_digit c = (c \<in> set ''0123456789'')"

definition digit_value :: "char \<Rightarrow> nat" where
  "digit_value c = of_char c - 48"

definition py_int :: "string \<Rightarrow> py_error + int" where
  "py_int s =
     (if s \<noteq> [] \<and> list_all is_digit s
      then Inr (int (foldl (\<lambda>a c. 10 * a + digit_value c) 0 s))
      else Inl ValueError)"

text \<open>
  \<open>Sync.on_member_remove\<close>. The site answers each request through \<open>respond\<close>
  (\<open>None\<close>: success; \<open>Some e\<close>: the client raises \<open>e\<close>). The result is the list of
  requests issued and the outcome of the handler.
\<close>

definition on_member_remove ::
  "(api_request \<Rightarrow> py_error option) \<Rightarrow> member \<Rightarrow> api_request list \<times> (py_error + unit)" where
  "on_member_remove respond m =
     (case py_int (discriminator m) of
        Inl e \<Rightarrow> ([], Inl e)
      | Inr d \<Rightarrow>
          let req = Put (BotUsersId (member_id m))
                \<lparr> j_avatar_hash = avatar m,
                  j_discriminator = d,
                  j_id = member_id m,
                  j_in_guild = True,
                  j_name = member_name m,
                  j_roles = sort (map role_id (roles m)) \<rparr>
          in ([req], case respond req of Some e \<Rightarrow> Inl e | None \<Rightarrow> Inr ()))"

section \<open>Notions used in the statements\<close>

text \<open>
  What a page is expected to be: the prefix, then each of its lines (followed by an empty
  line when \<open>empty'\<close> is set), then the suffix, joined by newlines.
\<close>

definition unit_of :: "bool \<Rightarrow> string \<Rightarrow> string list" where
  "unit_of empty' l = (if empty' then [l, ''''] else [l])"

definition page_of_lines :: "string \<Rightarrow> string \<Rightarrow> bool \<Rightarrow> string list \<Rightarrow> string" where
  "page_of_lines pre suf empty' chunk = join_nl (pre # concat (map (unit_of empty') chunk) @ [suf])"

text \<open>
  Reading the lines back from a page: \<open>page.split('\n')\<close> without its first and last
  element, and without the empty separator lines.
\<close>

fun split_nl :: "string \<Rightarrow> string list" where
  "split_nl [] = ['''']"
| "split_nl (c # cs) =
     (if c = newline then [] # split_nl cs
      else (c # hd (split_nl cs)) # tl (split_nl cs))"

fun every_other :: "'a list \<Rightarrow> 'a list" where
  "every_other (x # y # zs) = x # every_other zs"
| "every_other xs = xs"

definition page_lines :: "bool \<Rightarrow> string \<Rightarrow> string list" where
  "page_lines empty' page =
     (let body = butlast (tl (split_nl page))
      in if empty' then every_other body else body)"

text \<open>
  The paginator holds \<open>chunks\<close> as closed pages and \<open>cur\<close> on the page under
  construction.
\<close>

definition packed ::
  "bool \<Rightarrow> string list list \<Rightarrow> string list \<Rightarrow> line_paginator \<Rightarrow> bool" where
  "packed empty' chunks cur p \<longleftrightarrow>
     pg_pages p = map (page_of_lines (prefix p) (suffix p) empty') chunks
   \<and> pg_current_page p = prefix p # concat (map (unit_of empty') cur)"

text \<open>
  The transition table of the paginated view: the page after an event, for the current
  page \<open>p\<close> and the last page index \<open>L\<close>; \<open>None\<close> when the event ends the loop.
\<close>

fun table_page :: "int \<Rightarrow> int \<Rightarrow> emoji \<Rightarrow> int option" where
  "table_page p L DELETE_EMOJI = None"
| "table_page p L FIRST_EMOJI = Some 0"
| "table_page p L LAST_EMOJI = Some L"
| "table_page p L LEFT_EMOJI = Some (if p > 0 then p - 1 else p)"
| "table_page p L RIGHT_EMOJI = Some (if p < L then p + 1 else p)"



text \<open>
  A failure hits one of the message operations numbered \<open>a\<close>, ..., \<open>b - 1\<close> (an operation's
  number is the number of operations that succeeded before it).
\<close>

definition hit :: "(nat \<Rightarrow> bool) \<Rightarrow> nat \<Rightarrow> nat \<Rightarrow> bool" where
  "hit faulty a b = (\<exists>k\<in>{a..<b}. faulty k)"

text \<open>
  The calls that recovery makes for one fetched reminder, and the notification for a
  reminder that is recovered late.
\<close>

definition recovery_calls :: "int \<Rightarrow> reminder \<Rightarrow> cog_call list" where
  "recovery_calls now r =
     (if expiration r < now
      then [SendReminder (rem_id r) (Some (now - expiration r)), CancelTask (rem_id r)]
      else [ScheduleTask (rem_id r) r])"

definition late_notice :: "int \<Rightarrow> reminder \<Rightarrow> outgoing" where
  "late_notice now r =
     ReminderMessage (channel_id r) (author r) (content r) (Some (now - expiration r))"

section \<open>Example states\<close>

definition view0 :: view where
  "view0 = \<lparr> current_page = 0,
             shown = \<lparr> description = ''one'', emb_footer = PageFooter None 1 2, emb_image = None \<rparr>,
             sent = [] \<rparr>"


definition cfg0 :: config where
  "cfg0 = \<lparr> STAFF_ROLES = [1, 2], Channels_bot = 100 \<rparr>"

definition world0 :: world where
  "world0 = \<lparr> site = [], next_id = 1, clock = 1000, channels = [100, 200], users = [7],
              delivered = [], scheduled_tasks = [], calls = [], faults = (\<lambda>_. False) \<rparr>"

definition member_ctx :: cmd_context where
  "member_ctx = \<lparr> ctx_author = 7, ctx_top_role = 9, ctx_channel = 100 \<rparr>"

definition tea :: "int \<Rightarrow> int \<Rightarrow> reminder" where
  "tea i t = \<lparr> rem_id = i, author = 7, channel_id = 100, content = ''tea'', expiration = t \<rparr>"

definition world1 :: world where
  "world1 = world0\<lparr> site := [tea 1 900, tea 2 2000], next_id := 3,
                     scheduled_tasks := [(1, tea 1 900)], faults := (\<lambda>c. c = ApiDelete 1) \<rparr>"

definition world2 :: world where
  "world2 = world0\<lparr> site := [tea 2 2000, tea 1 900, tea 3 3000], next_id := 4,
                     faults := (\<lambda>c. c = ApiDelete 1) \<rparr>"

definition world3 :: world where
  "world3 = world0\<lparr> site := [(tea 1 900)\<lparr> author := 8 \<rparr>, tea 2 950], next_id := 3 \<rparr>"


definition sb1 :: sb_world where
  "sb1 = \<lparr> star_msg_map = PyDict [],
           sb_site = [(1, \<lparr> e_bot_message_id = Some 10, e_channel_id = 200 \<rparr>)],
           guild_channels = [(200, [1, 2]), (500, [10])],
           next_message_id = 11,
           sb_faults = (\<lambda>_. False) \<rparr>"

definition starred :: reaction_payload where
  "starred = \<lparr> p_message_id = 1, p_channel_id = 200 \<rparr>"

section \<open>Packing (LinePaginator.add_line)\<close>

lemma split_nl_plain: "newline \<notin> set x \<Longrightarrow> split_nl x = [x]"
  by (induction x) auto

lemma split_nl_append:
  "newline \<notin> set x \<Longrightarrow> split_nl (x @ newline # s) = x # split_nl s"
  by (induction x) auto

lemma split_join:
  "xs \<noteq> [] \<Longrightarrow> \<forall>x\<in>set xs. newline \<notin> set x \<Longrightarrow> split_nl (join_nl xs) = xs"
proof (induction xs rule: join_nl.induct)
  case 1
  then show ?case by simp
next
  case (2 x)
  then show ?case by (simp add: split_nl_plain)
next
  case (3 x y ys)
  then show ?case by (simp add: split_nl_append)
qed

lemma every_other_units: "every_other (concat (map (unit_of True) c)) = c"
  by (induction c) (auto simp: unit_of_def)

lemma page_lines_page_of_lines:
  assumes "newline \<notin> set pre" "newline \<notin> set suf" "\<forall>l\<in>set c. newline \<notin> set l"
  shows "page_lines empty' (page_of_lines pre suf empty' c) = c"
proof -
  let ?u = "concat (map (unit_of empty') c)"
  have "\<forall>x\<in>set (pre # ?u @ [suf]). newline \<notin> set x"
    using assms by (auto simp: unit_of_def)
  then have "split_nl (join_nl (pre # ?u @ [suf])) = pre # ?u @ [suf]"
    by (intro split_join) auto
  then have body: "butlast (tl (split_nl (page_of_lines pre suf empty' c))) = ?u"
    by (simp add: page_of_lines_def)
  show ?thesis
  proof (cases empty')
    case True
    then show ?thesis using body every_other_units by (simp add: page_lines_def)
  next
    case False
    then have "?u = c" by (induction c) (auto simp: unit_of_def)
    with False body show ?thesis by (simp add: page_lines_def)
  qed
qed

lemma packed_close_page:
  "packed empty' chunks cur p \<Longrightarrow> packed empty' (chunks @ [cur]) [] (close_page p)"
  by (simp add: packed_def close_page_def page_of_lines_def)

lemma close_page_fields [simp]:
  "prefix (close_page p) = prefix p" "suffix (close_page p) = suffix p"
  "max_size (close_page p) = max_size p" "max_lines (close_page p) = max_lines p"
  by (simp_all add: close_page_def)

lemma packed_linecount [simp]:
  "packed empty' chunks cur (p\<lparr> pg_linecount := n \<rparr>) = packed empty' chunks cur p"
  by (simp add: packed_def)

lemma add_line_packed:
  assumes inv: "packed empty' chunks cur p"
    and fits: "int (length line) \<le> max_size p - int (length (prefix p)) - 2"
  shows "\<exists>p' chunks' cur'.
           add_line line empty' p = Inr p'
         \<and> packed empty' chunks' cur' p'
         \<and> concat chunks' @ cur' = concat chunks @ cur @ [line]
         \<and> prefix p' = prefix p \<and> suffix p' = suffix p
         \<and> max_size p' = max_size p \<and> max_lines p' = max_lines p"
proof -
  define p1 where "p1 = (case max_lines p of
                    None \<Rightarrow> p
                  | Some ml \<Rightarrow>
                      let q = (if pg_linecount p \<ge> ml
                               then close_page (p\<lparr> pg_linecount := 0 \<rparr>) else p)
                      in q\<lparr> pg_linecount := pg_linecount q + 1 \<rparr>)"
  define p2 where "p2 = (if pg_count p1 + int (length line) + 1 > max_size p1
                  then close_page p1 else p1)"
  obtain ch1 cu1 where s1: "packed empty' ch1 cu1 p1" "concat ch1 @ cu1 = concat chunks @ cur"
    and f1: "prefix p1 = prefix p" "suffix p1 = suffix p" "max_size p1 = max_size p"
            "max_lines p1 = max_lines p"
  proof (cases "max_lines p")
    case None
    then have "p1 = p" by (simp add: p1_def)
    with inv that show ?thesis by simp
  next
    case (Some ml)
    show ?thesis
    proof (cases "pg_linecount p \<ge> ml")
      case True
      then have e: "p1 = (close_page (p\<lparr> pg_linecount := 0 \<rparr>))
                      \<lparr> pg_linecount := pg_linecount (close_page (p\<lparr> pg_linecount := 0 \<rparr>)) + 1 \<rparr>"
        using Some by (simp add: p1_def Let_def)
      have "packed empty' (chunks @ [cur]) [] (close_page (p\<lparr> pg_linecount := 0 \<rparr>))"
        using inv by (intro packed_close_page) simp
      then have "packed empty' (chunks @ [cur]) [] p1" by (simp add: e)
      moreover have "prefix p1 = prefix p" "suffix p1 = suffix p" "max_size p1 = max_size p"
            "max_lines p1 = max_lines p" by (simp_all add: e)
      ultimately show ?thesis using that [of "chunks @ [cur]" "[]"] by simp
    next
      case False
      then have e: "p1 = p\<lparr> pg_linecount := pg_linecount p + 1 \<rparr>"
        using Some by (simp add: p1_def Let_def)
      with inv that [of chunks cur] show ?thesis by simp
    qed
  qed
  obtain ch2 cu2 where s2: "packed empty' ch2 cu2 p2" "concat ch2 @ cu2 = concat chunks @ cur"
    and f2: "prefix p2 = prefix p" "suffix p2 = suffix p" "max_size p2 = max_size p"
            "max_lines p2 = max_lines p"
  proof (cases "pg_count p1 + int (length line) + 1 > max_size p1")
    case True
    then have e: "p2 = close_page p1" by (simp add: p2_def)
    have "packed empty' (ch1 @ [cu1]) [] p2" using s1(1) by (simp add: e packed_close_page)
    then show ?thesis using that [of "ch1 @ [cu1]" "[]"] s1(2) f1 by (simp add: e)
  next
    case False
    then have "p2 = p1" by (simp add: p2_def)
    then show ?thesis using that [of ch1 cu1] s1 f1 by simp
  qed
  let ?p3 = "p2\<lparr> pg_count := pg_count p2 + (int (length line) + 1),
                  pg_current_page := pg_current_page p2 @ [line] \<rparr>"
  let ?p' = "if empty'
             then ?p3\<lparr> pg_current_page := pg_current_page ?p3 @ [''''],
                       pg_count := pg_count ?p3 + 1 \<rparr>
             else ?p3"
  have r: "add_line line empty' p = Inr ?p'"
    using fits by (simp add: add_line_def p1_def p2_def Let_def)
  have "packed empty' ch2 (cu2 @ [line]) ?p'"
    using s2(1) by (simp add: packed_def unit_of_def)
  moreover have "concat ch2 @ (cu2 @ [line]) = concat chunks @ cur @ [line]"
    using s2(2) by (metis append.assoc)
  moreover have "prefix ?p' = prefix p" "suffix ?p' = suffix p"
    "max_size ?p' = max_size p" "max_lines ?p' = max_lines p"
    using f2 by simp_all
  ultimately show ?thesis using r by blast
qed

lemma add_lines_packed:
  assumes "packed empty' chunks cur p"
    and "\<forall>l\<in>set lines. int (length l) \<le> max_size p - int (length (prefix p)) - 2"
  shows "\<exists>p' chunks' cur'.
           add_lines lines empty' p = Inr p'
         \<and> packed empty' chunks' cur' p'
         \<and> concat chunks' @ cur' = concat chunks @ cur @ lines
         \<and> prefix p' = prefix p \<and> suffix p' = suffix p"
  using assms
proof (induction lines arbitrary: p chunks cur)
  case Nil
  then show ?case by auto
next
  case (Cons l ls)
  from Cons.prems obtain p1 ch1 cu1 where
    a: "add_line l empty' p = Inr p1" "packed empty' ch1 cu1 p1"
       "concat ch1 @ cu1 = concat chunks @ cur @ [l]"
       "prefix p1 = prefix p" "suffix p1 = suffix p"
       "max_size p1 = max_size p" "max_lines p1 = max_lines p"
    using add_line_packed [of empty' chunks cur p l] by auto
  have "\<forall>x\<in>set ls. int (length x) \<le> max_size p1 - int (length (prefix p1)) - 2"
    using Cons.prems(2) a by simp
  from Cons.IH [OF a(2) this] obtain p' ch' cu' where
    b: "add_lines ls empty' p1 = Inr p'" "packed empty' ch' cu' p'"
       "concat ch' @ cu' = concat ch1 @ cu1 @ ls" "prefix p' = prefix p1" "suffix p' = suffix p1"
    by blast
  have "concat ch' @ cu' = concat chunks @ cur @ l # ls"
    using a(3) b(3) by (metis append.assoc append_Cons append_Nil)
  then show ?case using a b
    by (intro exI [of _ p'] exI [of _ ch'] exI [of _ cu']) simp
qed

lemma pages_packed:
  assumes "packed empty' chunks cur p"
  shows "\<exists>chunks'. pages p = map (page_of_lines (prefix p) (suffix p) empty') chunks'
                  \<and> concat chunks' = concat chunks @ cur"
proof (cases "length (pg_current_page p) > 1")
  case True
  then have "pages p = pg_pages (close_page p)" by (simp add: pages_def)
  also have "\<dots> = map (page_of_lines (prefix p) (suffix p) empty') (chunks @ [cur])"
    using packed_close_page [OF assms] by (simp add: packed_def)
  finally show ?thesis by (intro exI [of _ "chunks @ [cur]"]) simp
next
  case False
  then have "concat (map (unit_of empty') cur) = []"
    using assms by (simp add: packed_def)
  then have "cur = []" by (cases cur) (auto simp: unit_of_def split: if_splits)
  with False assms show ?thesis
    by (intro exI [of _ chunks]) (simp add: pages_def packed_def)
qed

lemma packed_init: "packed empty' [] [] (LinePaginator_init pre suf msize mlines)"
  by (simp add: packed_def LinePaginator_init_def)

text \<open>
  C7. From a fresh \<open>LinePaginator\<close>, adding lines that are each within the limit
  \<open>max_size - len(prefix) - 2\<close> (with \<open>max_size\<close> already reduced by \<open>len(suffix)\<close>)
  never raises, and the resulting pages are the renderings of consecutive chunks of whole
  lines whose concatenation is the input: no line is split across two pages, none is
  lost, duplicated or reordered. When no newline occurs in the prefix, the suffix or a
  line, the lines read back from the pages, in order, are the input. A line longer than
  the limit makes \<open>add_line\<close> raise \<open>RuntimeError\<close>, whatever the state of the paginator.
\<close>

theorem line_paginator_packing:
  "((\<forall>l\<in>set lines. int (length l) \<le> msize - int (length suf) - int (length pre) - 2) \<longrightarrow>
     (\<exists>p chunks.
        add_lines lines empty' (LinePaginator_init pre suf msize mlines) = Inr p
      \<and> concat chunks = lines
      \<and> pages p = map (page_of_lines pre suf empty') chunks
      \<and> (newline \<notin> set pre \<and> newline \<notin> set suf \<and> (\<forall>l\<in>set lines. newline \<notin> set l) \<longrightarrow>
           concat (map (page_lines empty') (pages p)) = lines)))
   \<and> (int (length line) > max_size q - int (length (prefix q)) - 2 \<longrightarrow>
        add_line line empty' q = Inl RuntimeError)"
proof (intro conjI impI)
  let ?p0 = "LinePaginator_init pre suf msize mlines"
  assume fits: "\<forall>l\<in>set lines. int (length l) \<le> msize - int (length suf) - int (length pre) - 2"
  have f0: "prefix ?p0 = pre" "suffix ?p0 = suf" "max_size ?p0 = msize - int (length suf)"
    by (simp_all add: LinePaginator_init_def)
  have "\<forall>l\<in>set lines. int (length l) \<le> max_size ?p0 - int (length (prefix ?p0)) - 2"
    using fits by (simp add: f0)
  from add_lines_packed [OF packed_init [of empty' pre suf msize mlines] this] obtain p ch cu where
    a: "add_lines lines empty' ?p0 = Inr p" "packed empty' ch cu p"
       "concat ch @ cu = lines" "prefix p = pre" "suffix p = suf"
    by (auto simp: f0)
  from pages_packed [OF a(2)] obtain chunks where
    b: "pages p = map (page_of_lines pre suf empty') chunks" "concat chunks = lines"
    using a by auto
  have "concat (map (page_lines empty') (pages p)) = lines"
    if nl: "newline \<notin> set pre \<and> newline \<notin> set suf \<and> (\<forall>l\<in>set lines. newline \<notin> set l)"
  proof -
    have "\<forall>c\<in>set chunks. \<forall>l\<in>set c. newline \<notin> set l"
      using nl b(2) by auto
    then have "map (page_lines empty') (pages p) = chunks"
      using nl by (simp add: b(1) page_lines_page_of_lines map_idI)
    then show ?thesis using b(2) by simp
  qed
  with a(1) b show "\<exists>p chunks.
      add_lines lines empty' ?p0 = Inr p
    \<and> concat chunks = lines
    \<and> pages p = map (page_of_lines pre suf empty') chunks
    \<and> (newline \<notin> set pre \<and> newline \<notin> set suf \<and> (\<forall>l\<in>set lines. newline \<notin> set l) \<longrightarrow>
         concat (map (page_lines empty') (pages p)) = lines)"
    by blast
next
  assume "int (length line) > max_size q - int (length (prefix q)) - 2"
  then show "add_line line empty' q = Inl RuntimeError"
    by (simp add: add_line_def)
qed

theorem line_paginator_packing_witness:
  "(\<exists>p. add_lines [''aaa'', ''bb'', ''cccc'', ''d''] False
           (LinePaginator_init ''<'' ''>'' 12 (Some 2)) = Inr p
      \<and> concat (map (page_lines False) (pages p)) = [''aaa'', ''bb'', ''cccc'', ''d''])
   \<and> add_line ''0123456789'' False (LinePaginator_init ''<'' ''>'' 12 (Some 2))
       = Inl RuntimeError"
  using line_paginator_packing
    [where lines="[''aaa'', ''bb'', ''cccc'', ''d'']" and empty'=False and pre="''<''"
       and suf="''>''" and msize=12 and mlines="Some 2" and line="''0123456789''"
       and q="LinePaginator_init ''<'' ''>'' 12 (Some 2)"]
  by (auto simp: LinePaginator_init_def newline_def)

section \<open>Navigation (LinePaginator.paginate, ImagePaginator.paginate)\<close>








text \<open>
  C5. In \<open>ImagePaginator\<close>, on page 0 of two pages with no message operation failing,
  the event \<open>last\<close> raises \<open>TypeError\<close>, where the transition table gives page 1.
\<close>

theorem image_paginator_last_raises:
  "image_turn (\<lambda>_. False) [''one'', ''two''] [''a'', ''b''] LAST_EMOJI view0 = Inl TypeError
   \<and> table_page (current_page view0) (int (length [''one'', ''two'']) - 1) LAST_EMOJI = Some 1"
  by (simp add: image_turn_def remove_reaction_def message_do_def view0_def)












lemma hit_same [simp]: "\<not> hit faulty a a"
  by (simp add: hit_def)





text \<open>
  Each message operation either raises, when a failure hits it, or does what it does in
  the run without failures.
\<close>

lemma message_do_faulty:
  "message_do faulty op done =
     (if faulty (length done) then Inl HTTPException else Inr (done @ [op]))"
  by (simp add: message_do_def)
















section \<open>Reminders\<close>

text \<open>
  A refused command writes nothing: the site's table and the scheduler's map are as
  before. An accepted command appends the new reminder to the site's table and then adds
  a scheduler entry under the id the site returned.
\<close>

lemma new_reminder_refusal_writes_nothing:
  assumes "fst (new_reminder cfg ctx expiration' content' w) = Inr (Some refusal)"
  shows "site (snd (new_reminder cfg ctx expiration' content' w)) = site w
       \<and> scheduled_tasks (snd (new_reminder cfg ctx expiration' content' w)) = scheduled_tasks w"
  using assms
  by (auto simp: new_reminder_def api_get_user_def api_post_def ctx_send_def channel_send_def
        schedule_task_def Let_def split: if_splits)

lemma new_reminder_creates_then_schedules:
  assumes "fst (new_reminder cfg ctx expiration' content' w) = Inr None"
  shows "site (snd (new_reminder cfg ctx expiration' content' w))
           = site w @ [\<lparr> rem_id = next_id w, author = ctx_author ctx,
                          channel_id = ctx_channel ctx, content = content',
                          expiration = expiration' \<rparr>]
       \<and> scheduled_tasks (snd (new_reminder cfg ctx expiration' content' w))
           = scheduled_tasks w @ [(next_id w,
                \<lparr> rem_id = next_id w, author = ctx_author ctx,
                  channel_id = ctx_channel ctx, content = content',
                  expiration = expiration' \<rparr>)]"
  using assms
  by (auto simp: new_reminder_def api_get_user_def api_post_def ctx_send_def channel_send_def
        schedule_task_def Let_def split: if_splits)

text \<open>
  C1. An unprivileged user in the allow-listed channel, starting with no reminders,
  invokes the command seven times: the first six invocations create a reminder and only
  the seventh is refused. After the sixth the site holds six reminders and the scheduler
  six entries. The test \<open>len(active_reminders) > MAXIMUM_REMINDERS\<close> lets a user who
  already has five reminders create another.
\<close>

theorem sixth_reminder_accepted:
  "fst (new_reminders 7 cfg0 member_ctx 2000 ''tea'' world0)
     = [Inr None, Inr None, Inr None, Inr None, Inr None, Inr None, Inr (Some TooManyReminders)]
   \<and> length (site (snd (new_reminders 6 cfg0 member_ctx 2000 ''tea'' world0))) = 6
   \<and> map fst (scheduled_tasks (snd (new_reminders 6 cfg0 member_ctx 2000 ''tea'' world0)))
       = [1, 2, 3, 4, 5, 6]"
  by (simp add: numeral_eq_Suc new_reminder_def cfg0_def member_ctx_def world0_def
        WHITELISTED_CHANNELS_def MAXIMUM_REMINDERS_def api_get_user_def api_post_def
        ctx_send_def channel_send_def schedule_task_def Let_def)




lemma cancel_task_fields [simp]:
  "site (cancel_task i w) = site w" "delivered (cancel_task i w) = delivered w"
  "faults (cancel_task i w) = faults w" "channels (cancel_task i w) = channels w"
  "users (cancel_task i w) = users w" "clock (cancel_task i w) = clock w"
  "calls (cancel_task i w) = calls w @ [CancelTask i]"
  "scheduled_tasks (cancel_task i w) = filter (\<lambda>entry. fst entry \<noteq> i) (scheduled_tasks w)"
  by (simp_all add: cancel_task_def)

lemma filter_absent_key:
  "i \<notin> set (map fst xs) \<Longrightarrow> filter (\<lambda>entry. fst entry \<noteq> i) xs = xs"
  by (induction xs) auto

lemma send_reminder_ok:
  assumes "channel_id r \<in> set (channels w)" "author r \<in> set (users w)"
    "\<not> faults w (ChannelSend (channel_id r))" "\<not> faults w (ApiDelete (rem_id r))"
    "rem_id r \<in> set (map rem_id (site w))" "d \<noteq> 0"
  shows "send_reminder r (Some d) w =
           (Inr (), cancel_task (rem_id r)
              (w\<lparr> calls := calls w @ [SendReminder (rem_id r) (Some d)],
                   delivered := delivered w
                      @ [ReminderMessage (channel_id r) (author r) (content r) (Some d)],
                   site := filter (\<lambda>x. rem_id x \<noteq> rem_id r) (site w) \<rparr>))"
  using assms
  by (simp add: send_reminder_def channel_send_def delete_reminder_def api_delete_def Let_def)

lemma recover_one_overdue:
  assumes "channel_id r \<in> set (channels w)" "author r \<in> set (users w)"
    "\<forall>c. \<not> faults w c" "rem_id r \<in> set (map rem_id (site w))"
    "rem_id r \<notin> set (map fst (scheduled_tasks w))" "expiration r < now"
  shows "fst (recover_one now r w) = Inr ()"
    "delivered (snd (recover_one now r w)) = delivered w @ [late_notice now r]"
    "site (snd (recover_one now r w)) = filter (\<lambda>x. rem_id x \<noteq> rem_id r) (site w)"
    "scheduled_tasks (snd (recover_one now r w)) = scheduled_tasks w"
    "faults (snd (recover_one now r w)) = faults w"
    "channels (snd (recover_one now r w)) = channels w"
    "users (snd (recover_one now r w)) = users w"
proof -
  have "now - expiration r \<noteq> 0" using assms(6) by simp
  then have e: "recover_one now r w =
           (Inr (), cancel_task (rem_id r)
              (w\<lparr> calls := calls w @ [SendReminder (rem_id r) (Some (now - expiration r))],
                   delivered := delivered w
                      @ [ReminderMessage (channel_id r) (author r) (content r)
                           (Some (now - expiration r))],
                   site := filter (\<lambda>x. rem_id x \<noteq> rem_id r) (site w) \<rparr>))"
    using assms send_reminder_ok [of r w "now - expiration r"]
    by (simp add: recover_one_def)
  show "fst (recover_one now r w) = Inr ()" by (simp add: e)
  show "delivered (snd (recover_one now r w)) = delivered w @ [late_notice now r]"
    by (simp add: e late_notice_def)
  show "site (snd (recover_one now r w)) = filter (\<lambda>x. rem_id x \<noteq> rem_id r) (site w)"
    by (simp add: e)
  show "scheduled_tasks (snd (recover_one now r w)) = scheduled_tasks w"
    using assms(5) by (simp add: e filter_absent_key)
  show "faults (snd (recover_one now r w)) = faults w" by (simp add: e)
  show "channels (snd (recover_one now r w)) = channels w" by (simp add: e)
  show "users (snd (recover_one now r w)) = users w" by (simp add: e)
qed

lemma recover_one_pending:
  assumes "rem_id r \<notin> set (map fst (scheduled_tasks w))" "\<not> expiration r < now"
  shows "fst (recover_one now r w) = Inr ()"
    "delivered (snd (recover_one now r w)) = delivered w"
    "site (snd (recover_one now r w)) = site w"
    "scheduled_tasks (snd (recover_one now r w)) = scheduled_tasks w @ [(rem_id r, r)]"
    "faults (snd (recover_one now r w)) = faults w"
    "channels (snd (recover_one now r w)) = channels w"
    "users (snd (recover_one now r w)) = users w"
  using assms by (simp_all add: recover_one_def schedule_task_def Let_def)

lemma recover_all_step:
  "fst (recover_one now r w) = Inr () \<Longrightarrow>
     recover_all now (r # rs) w = recover_all now rs (snd (recover_one now r w))"
  by (cases "recover_one now r w") (auto split: sum.splits)

lemma recover_all_ok:
  assumes "\<forall>c. \<not> faults w c"
    and "distinct (map rem_id rs)"
    and "set (map rem_id rs) \<subseteq> set (map rem_id (site w))"
    and "set (map rem_id rs) \<inter> set (map fst (scheduled_tasks w)) = {}"
    and "\<forall>r\<in>set rs. channel_id r \<in> set (channels w) \<and> author r \<in> set (users w)"
  shows "fst (recover_all now rs w) = Inr ()
       \<and> delivered (snd (recover_all now rs w))
           = delivered w @ map (late_notice now) (filter (\<lambda>r. expiration r < now) rs)
       \<and> scheduled_tasks (snd (recover_all now rs w))
           = scheduled_tasks w @ map (\<lambda>r. (rem_id r, r)) (filter (\<lambda>r. \<not> expiration r < now) rs)
       \<and> site (snd (recover_all now rs w))
           = filter (\<lambda>x. rem_id x \<notin> set (map rem_id (filter (\<lambda>r. expiration r < now) rs)))
               (site w)"
  using assms
proof (induction rs arbitrary: w)
  case Nil
  then show ?case by simp
next
  case (Cons r rs)
  let ?w1 = "snd (recover_one now r w)"
  have nsched: "rem_id r \<notin> set (map fst (scheduled_tasks w))"
    using Cons.prems(4) by auto
  have pres: "rem_id r \<in> set (map rem_id (site w))"
    using Cons.prems(3) by auto
  have known: "channel_id r \<in> set (channels w)" "author r \<in> set (users w)"
    using Cons.prems(5) by auto
  have fresh: "rem_id r \<notin> set (map rem_id rs)" and dist: "distinct (map rem_id rs)"
    using Cons.prems(2) by auto
  show ?case
  proof (cases "expiration r < now")
    case True
    note one = recover_one_overdue [OF known Cons.prems(1) pres nsched True]
    have a1: "\<forall>c. \<not> faults ?w1 c" using Cons.prems(1) one(5) by simp
    have a3: "set (map rem_id rs) \<subseteq> set (map rem_id (site ?w1))"
    proof
      fix i assume i: "i \<in> set (map rem_id rs)"
      then have "i \<in> set (map rem_id (site w))" using Cons.prems(3) by auto
      then obtain y where "y \<in> set (site w)" "rem_id y = i" by auto
      moreover have "i \<noteq> rem_id r" using i fresh by blast
      ultimately show "i \<in> set (map rem_id (site ?w1))" by (auto simp: one(3))
    qed
    have a4: "set (map rem_id rs) \<inter> set (map fst (scheduled_tasks ?w1)) = {}"
      using Cons.prems(4) by (auto simp: one(4))
    have a5: "\<forall>x\<in>set rs. channel_id x \<in> set (channels ?w1) \<and> author x \<in> set (users ?w1)"
      using Cons.prems(5) by (simp add: one(6,7))
    have flt: "filter (\<lambda>x. rem_id x \<notin> set (map rem_id (filter (\<lambda>r. expiration r < now) rs)))
                 (filter (\<lambda>x. rem_id x \<noteq> rem_id r) (site w))
             = filter (\<lambda>x. rem_id x \<notin> set (map rem_id (filter (\<lambda>r. expiration r < now) (r # rs))))
                 (site w)"
      using True by (auto intro: filter_cong)
    from Cons.IH [OF a1 dist a3 a4 a5] True flt show ?thesis
      by (simp add: recover_all_step [OF one(1)] one(2,3,4) del: recover_all.simps)
  next
    case False
    note one = recover_one_pending [OF nsched False]
    have a1: "\<forall>c. \<not> faults ?w1 c" using Cons.prems(1) one(5) by simp
    have a3: "set (map rem_id rs) \<subseteq> set (map rem_id (site ?w1))"
      using Cons.prems(3) by (auto simp: one(3))
    have a4: "set (map rem_id rs) \<inter> set (map fst (scheduled_tasks ?w1)) = {}"
      using Cons.prems(4) fresh by (auto simp: one(4))
    have a5: "\<forall>x\<in>set rs. channel_id x \<in> set (channels ?w1) \<and> author x \<in> set (users ?w1)"
      using Cons.prems(5) by (simp add: one(6,7))
    from Cons.IH [OF a1 dist a3 a4 a5] False show ?thesis
      by (simp add: recover_all_step [OF one(1)] one(2,3,4) del: recover_all.simps)
  qed
qed

lemma filter_not_overdue:
  assumes "distinct (map rem_id xs)"
  shows "filter (\<lambda>x. rem_id x \<notin> set (map rem_id (filter P xs))) xs = filter (\<lambda>x. \<not> P x) xs"
proof (rule filter_cong [OF refl])
  fix x assume x: "x \<in> set xs"
  have "rem_id x \<in> rem_id ` {y \<in> set xs. P y} \<longleftrightarrow> P x"
  proof
    assume "rem_id x \<in> rem_id ` {y \<in> set xs. P y}"
    then obtain y where y: "y \<in> set xs" "P y" "rem_id y = rem_id x" by auto
    from assms x y(1,3) have "y = x"
      by (metis distinct_map inj_onD)
    with y show "P x" by simp
  next
    assume "P x" with x show "rem_id x \<in> rem_id ` {y \<in> set xs. P y}" by auto
  qed
  then show "(rem_id x \<notin> set (map rem_id (filter P xs))) = (\<not> P x)" by simp
qed

lemma filter_not_overdue_image:
  assumes "distinct (map rem_id xs)"
  shows "filter (\<lambda>x. rem_id x \<notin> rem_id ` {y \<in> set xs. P y}) xs = filter (\<lambda>x. \<not> P x) xs"
  using filter_not_overdue [OF assms, of P] by simp

lemma recover_one_calls:
  assumes "fst (recover_one now r w) = Inr ()"
  shows "calls (snd (recover_one now r w)) = calls w @ recovery_calls now r"
    and "delivered (snd (recover_one now r w))
           = delivered w @ (if expiration r < now then [late_notice now r] else [])"
  using assms
  by (auto simp: recover_one_def recovery_calls_def late_notice_def send_reminder_def
        channel_send_def delete_reminder_def api_delete_def cancel_task_def schedule_task_def
        Let_def split: if_splits)

lemma recover_all_calls:
  "fst (recover_all now rs w) = Inr () \<Longrightarrow>
     calls (snd (recover_all now rs w)) = calls w @ concat (map (recovery_calls now) rs)
   \<and> delivered (snd (recover_all now rs w))
       = delivered w @ map (late_notice now) (filter (\<lambda>r. expiration r < now) rs)"
proof (induction rs arbitrary: w)
  case Nil
  then show ?case by simp
next
  case (Cons r rs)
  have one: "fst (recover_one now r w) = Inr ()"
    using Cons.prems by (cases "recover_one now r w") (auto split: sum.splits)
  note step = recover_all_step [OF one, of rs]
  from Cons.prems have "fst (recover_all now rs (snd (recover_one now r w))) = Inr ()"
    by (simp only: step)
  from Cons.IH [OF this] recover_one_calls [OF one] show ?case
    by (simp add: step del: recover_all.simps)
qed

text \<open>
  C3, as amended. Whenever startup recovery returns without raising, the calls it has
  made are, for each fetched reminder in order: for one whose deadline is before now, one
  invocation of the fire action with lateness now minus deadline, followed by the
  \<open>cancel_task\<close> inside \<open>_delete_reminder\<close>, and no \<open>schedule_task\<close>; for any other, one
  \<open>schedule_task\<close> with its id and data, and no fire. Exactly one late notification per
  overdue reminder has been sent. Recovery does return without raising when no external
  call fails, every channel and author resolves, the fetched ids are distinct and the
  scheduler is empty; then the overdue reminders are gone from the site and the scheduler
  holds exactly the others. (What a raising call does is the subject of C4.)
\<close>

theorem on_ready_recovers:
  "(fst (on_ready w) = Inr () \<longrightarrow>
      calls (snd (on_ready w)) = calls w @ concat (map (recovery_calls (clock w)) (site w))
    \<and> delivered (snd (on_ready w))
        = delivered w
          @ map (late_notice (clock w)) (filter (\<lambda>r. expiration r < clock w) (site w)))
 \<and> ((\<forall>c. \<not> faults w c) \<and> distinct (map rem_id (site w)) \<and> scheduled_tasks w = []
      \<and> (\<forall>r\<in>set (site w). channel_id r \<in> set (channels w) \<and> author r \<in> set (users w)) \<longrightarrow>
      fst (on_ready w) = Inr ()
    \<and> scheduled_tasks (snd (on_ready w))
        = map (\<lambda>r. (rem_id r, r)) (filter (\<lambda>r. \<not> expiration r < clock w) (site w))
    \<and> site (snd (on_ready w)) = filter (\<lambda>r. \<not> expiration r < clock w) (site w))"
proof (intro conjI impI)
  assume ok: "fst (on_ready w) = Inr ()"
  then have e: "on_ready w = recover_all (clock w) (site w) w"
    by (auto simp: on_ready_def api_get_active_def split: if_splits)
  with ok have "fst (recover_all (clock w) (site w) w) = Inr ()" by simp
  from recover_all_calls [OF this]
  show "calls (snd (on_ready w)) = calls w @ concat (map (recovery_calls (clock w)) (site w))"
    and "delivered (snd (on_ready w))
        = delivered w
          @ map (late_notice (clock w)) (filter (\<lambda>r. expiration r < clock w) (site w))"
    by (simp_all add: e)
next
  assume a: "(\<forall>c. \<not> faults w c) \<and> distinct (map rem_id (site w)) \<and> scheduled_tasks w = []
      \<and> (\<forall>r\<in>set (site w). channel_id r \<in> set (channels w) \<and> author r \<in> set (users w))"
  then have nf: "\<forall>c. \<not> faults w c" and di: "distinct (map rem_id (site w))"
    and em: "scheduled_tasks w = []"
    and kn: "\<forall>r\<in>set (site w). channel_id r \<in> set (channels w) \<and> author r \<in> set (users w)"
    by auto
  have e: "on_ready w = recover_all (clock w) (site w) w"
    using nf by (simp add: on_ready_def api_get_active_def)
  have "set (map rem_id (site w)) \<inter> set (map fst (scheduled_tasks w)) = {}"
    using em by simp
  from recover_all_ok [OF nf di subset_refl this kn, of "clock w"]
  show "fst (on_ready w) = Inr ()"
    and "scheduled_tasks (snd (on_ready w))
        = map (\<lambda>r. (rem_id r, r)) (filter (\<lambda>r. \<not> expiration r < clock w) (site w))"
    and "site (snd (on_ready w)) = filter (\<lambda>r. \<not> expiration r < clock w) (site w)"
    by (simp_all add: e em filter_not_overdue_image [OF di])
qed

theorem on_ready_recovers_witness:
  "fst (on_ready (world1\<lparr> scheduled_tasks := [], faults := (\<lambda>_. False) \<rparr>)) = Inr ()
   \<and> calls (snd (on_ready (world1\<lparr> scheduled_tasks := [], faults := (\<lambda>_. False) \<rparr>)))
       = [SendReminder 1 (Some 100), CancelTask 1, ScheduleTask 2 (tea 2 2000)]
   \<and> delivered (snd (on_ready (world1\<lparr> scheduled_tasks := [], faults := (\<lambda>_. False) \<rparr>)))
       = [ReminderMessage 100 7 ''tea'' (Some 100)]
   \<and> scheduled_tasks (snd (on_ready (world1\<lparr> scheduled_tasks := [], faults := (\<lambda>_. False) \<rparr>)))
       = [(2, tea 2 2000)]
   \<and> site (snd (on_ready (world1\<lparr> scheduled_tasks := [], faults := (\<lambda>_. False) \<rparr>)))
       = [tea 2 2000]"
  using on_ready_recovers [of "world1\<lparr> scheduled_tasks := [], faults := (\<lambda>_. False) \<rparr>"]
  by (simp add: world1_def world0_def tea_def late_notice_def recovery_calls_def)

text \<open>
  No call fails, but the author of the first overdue reminder cannot be resolved:
  \<open>on_ready\<close> raises \<open>AttributeError\<close> at the first reminder, and the fire action is never
  invoked for the second overdue reminder, for which nothing is sent.
\<close>

theorem on_ready_unresolved_author_counterexample:
  "fst (on_ready world3) = Inl AttributeError
   \<and> tea 2 950 \<in> set (site world3)
   \<and> expiration (tea 2 950) < clock world3
   \<and> calls (snd (on_ready world3)) = [SendReminder 1 (Some 100)]
   \<and> delivered (snd (on_ready world3)) = []"
  by (simp add: on_ready_def api_get_active_def world3_def world0_def tea_def recover_one_def
        send_reminder_def Let_def)

lemma recover_all_stops:
  "recover_all now pre w = (Inr (), w1) \<Longrightarrow> recover_one now r w1 = (Inl e, w2) \<Longrightarrow>
     recover_all now (pre @ r # post) w = (Inl e, w2)"
proof (induction pre arbitrary: w)
  case Nil
  then show ?case by simp
next
  case (Cons a pre)
  then show ?case
    by (cases "recover_one now a w") (auto split: sum.splits)
qed

text \<open>
  C4, as amended. A failure while recovering one task is not caught. If the tasks before
  it are recovered and the task then fails, \<open>on_ready\<close> raises that failure in the state
  the failing task left: the tasks after it are neither fired nor scheduled.
\<close>

theorem on_ready_stops_at_failure:
  assumes "\<not> faults w ApiGet"
    and "site w = pre @ r # post"
    and "recover_all (clock w) pre w = (Inr (), w1)"
    and "recover_one (clock w) r w1 = (Inl e, w2)"
  shows "on_ready w = (Inl e, w2)"
  using assms recover_all_stops [of "clock w" pre w w1 r e w2 post]
  by (simp add: on_ready_def api_get_active_def)

theorem on_ready_stops_at_failure_witness:
  "on_ready world2
     = (Inl (ClientResponseError 500),
        world2\<lparr> scheduled_tasks := [(2, tea 2 2000)],
                 calls := [ScheduleTask 2 (tea 2 2000), SendReminder 1 (Some 100)],
                 delivered := [ReminderMessage 100 7 ''tea'' (Some 100)] \<rparr>)"
  using on_ready_stops_at_failure
          [of world2 "[tea 2 2000]" "tea 1 900" "[tea 3 3000]"
              "world2\<lparr> scheduled_tasks := [(2, tea 2 2000)],
                       calls := [ScheduleTask 2 (tea 2 2000)] \<rparr>"
              "ClientResponseError 500"
              "world2\<lparr> scheduled_tasks := [(2, tea 2 2000)],
                       calls := [ScheduleTask 2 (tea 2 2000), SendReminder 1 (Some 100)],
                       delivered := [ReminderMessage 100 7 ''tea'' (Some 100)] \<rparr>"]
  by (simp add: world2_def world0_def tea_def recover_one_def send_reminder_def channel_send_def
        delete_reminder_def api_delete_def schedule_task_def Let_def)

text \<open>
  Three reminders on the site, the second overdue with a failing remote delete, the third
  not yet due: \<open>on_ready\<close> raises and the third is not scheduled.
\<close>

theorem on_ready_abort_counterexample:
  "fst (on_ready world2) = Inl (ClientResponseError 500)
   \<and> tea 3 3000 \<in> set (site world2)
   \<and> \<not> expiration (tea 3 3000) < clock world2
   \<and> 3 \<notin> set (map fst (scheduled_tasks (snd (on_ready world2))))"
  by (simp add: on_ready_def api_get_active_def world2_def world0_def tea_def recover_one_def
        send_reminder_def channel_send_def delete_reminder_def api_delete_def schedule_task_def)

section \<open>Starboard\<close>

lemma get_channel_of_message:
  "channel_get_message cid mid s = Inr m \<Longrightarrow> get_channel cid s = Some cid"
  by (auto simp: channel_get_message_def get_channel_def split: option.splits if_splits
        dest: map_of_SomeD intro: rev_image_eqI)

lemma channel_get_message_id:
  "channel_get_message cid mid s = Inr m \<Longrightarrow> msg_id m = mid"
  by (auto simp: channel_get_message_def split: option.splits if_splits)

text \<open>
  C8, as amended. On a cache miss (the cache is a dict without the message id) for an id
  that the site holds, with both messages still in their channels, \<open>get_messages\<close>
  returns the original message together with the starboard message of the site's entry,
  and leaves the state, the cache included, as it was. The mapping enters the cache when
  \<open>change_starcount\<close> runs afterwards and its edit succeeds.
\<close>

theorem get_messages_miss_reads_site:
  assumes "star_msg_map s = PyDict d"
    and "map_of d (p_message_id payload) = None"
    and "map_of (sb_site s) (p_message_id payload) = Some entry"
    and "e_bot_message_id entry = Some bot_id"
    and "\<not> sb_faults s SiteGet"
    and "channel_get_message (p_channel_id payload) (p_message_id payload) s = Inr original"
    and "channel_get_message sb bot_id s = Inr star_msg"
  shows "get_messages payload (Some sb) s = (Inr (original, Some star_msg), s)
       \<and> (\<not> sb_faults s StarboardEdit \<longrightarrow>
            star_msg_map (snd (change_starcount sb original star_msg s))
              = PyDict (AList.update (p_message_id payload) bot_id d))"
proof
  show "get_messages payload (Some sb) s = (Inr (original, Some star_msg), s)"
    using assms get_channel_of_message [OF assms(6)]
    by (simp add: get_messages_def cache_getitem_def site_get_entry_def)
next
  have ids: "msg_id original = p_message_id payload" "msg_id star_msg = bot_id"
    using channel_get_message_id assms(6,7) by auto
  have miss: "p_message_id payload \<notin> set (map fst d)"
    using assms(2) by (simp add: map_of_eq_None_iff)
  have present: "p_message_id payload \<in> set (map fst (sb_site s))"
    using assms(3) by (metis map_of_eq_None_iff option.distinct(1) set_map)
  show "\<not> sb_faults s StarboardEdit \<longrightarrow>
            star_msg_map (snd (change_starcount sb original star_msg s))
              = PyDict (AList.update (p_message_id payload) bot_id d)"
    using assms(1,5) ids miss present
    by (simp add: change_starcount_def cache_contains_def cache_setitem_def Let_def)
qed

theorem get_messages_miss_reads_site_witness:
  "get_messages starred (Some 500) sb1
     = (Inr (\<lparr> msg_id = 1, msg_channel = 200 \<rparr>, Some \<lparr> msg_id = 10, msg_channel = 500 \<rparr>), sb1)
   \<and> star_msg_map (snd (change_starcount 500 \<lparr> msg_id = 1, msg_channel = 200 \<rparr>
                          \<lparr> msg_id = 10, msg_channel = 500 \<rparr> sb1)) = PyDict [(1, 10)]"
  using get_messages_miss_reads_site
    [of sb1 "[]" starred "\<lparr> e_bot_message_id = Some 10, e_channel_id = 200 \<rparr>" 10
        "\<lparr> msg_id = 1, msg_channel = 200 \<rparr>" 500 "\<lparr> msg_id = 10, msg_channel = 500 \<rparr>"]
  by (simp add: sb1_def starred_def channel_get_message_def)

text \<open>
  The site holds message 1 and the cache is empty: \<open>get_messages\<close> returns the starboard
  message and the cache is still empty afterwards.
\<close>

theorem get_messages_no_backfill_counterexample:
  "fst (get_messages starred (Some 500) sb1)
     = Inr (\<lparr> msg_id = 1, msg_channel = 200 \<rparr>, Some \<lparr> msg_id = 10, msg_channel = 500 \<rparr>)
   \<and> map_of (sb_site sb1) 1 = Some \<lparr> e_bot_message_id = Some 10, e_channel_id = 200 \<rparr>
   \<and> star_msg_map (snd (get_messages starred (Some 500) sb1)) = PyDict []
   \<and> \<not> cache_contains (star_msg_map (snd (get_messages starred (Some 500) sb1))) 1"
  by (simp add: get_messages_def get_channel_def channel_get_message_def cache_getitem_def
        site_get_entry_def cache_contains_def sb1_def starred_def)

text \<open>
  Startup population, entry creation, the star-count update, the deletion of one entry and
  \<open>get_messages\<close> leave a dict in the cache when they find one.
\<close>

lemma populate_keeps_dict:
  "is_dict (snd (populate entries (PyDict d)))"
  by (induction entries arbitrary: d)
     (auto simp: cache_setitem_def is_dict_def split: option.splits)

lemma post_to_api_cache [simp]:
  "star_msg_map (snd (post_to_api original star_msg s)) = star_msg_map s"
  by (simp add: post_to_api_def message_delete_def)

lemma dict_kept_by_other_operations:
  assumes "star_msg_map s = PyDict d"
  shows "is_dict (star_msg_map (snd (post_new_entry original sb s)))"
    and "is_dict (star_msg_map (snd (change_starcount sb original star_msg s)))"
    and "is_dict (star_msg_map (snd (delete_star original star_msg s)))"
    and "is_dict (star_msg_map (snd (get_messages payload starboard s)))"
    and "is_dict (star_msg_map (snd (async_init s)))"
proof -
  show "is_dict (star_msg_map (snd (post_new_entry original sb s)))"
    using assms
    by (auto simp: post_new_entry_def starboard_send_def cache_setitem_def is_dict_def
          post_to_api_def message_delete_def split: prod.splits bool.splits)
  show "is_dict (star_msg_map (snd (change_starcount sb original star_msg s)))"
    using assms
    by (auto simp: change_starcount_def cache_setitem_def is_dict_def Let_def)
  show "is_dict (star_msg_map (snd (delete_star original star_msg s)))"
    using assms
    by (auto simp: delete_star_def cache_delitem_def is_dict_def message_delete_def Let_def)
  show "is_dict (star_msg_map (snd (get_messages payload starboard s)))"
    using assms
    by (auto simp: get_messages_def is_dict_def
          split: option.splits sum.splits json_reply.splits)
  show "is_dict (star_msg_map (snd (async_init s)))"
    using assms populate_keeps_dict [of "sb_site s" d]
    by (auto simp: async_init_def is_dict_def split: prod.splits)
qed

text \<open>
  C9. After the wipe command is confirmed and the site answers 200, \<open>star_msg_map\<close> is the
  empty list, not a dict. From then on creating an entry raises \<open>IndexError\<close> at the
  assignment to the cache, and \<open>get_messages\<close> raises \<open>IndexError\<close> at the lookup;
  before the wipe the same creation succeeds.
\<close>

theorem wipe_leaves_list_for_cache:
  "star_msg_map (snd (delete_all_star_entries SaidYes sb1)) = PyList []
   \<and> \<not> is_dict (star_msg_map (snd (delete_all_star_entries SaidYes sb1)))
   \<and> fst (post_new_entry \<lparr> msg_id = 2, msg_channel = 200 \<rparr> 500
            (snd (delete_all_star_entries SaidYes sb1))) = Inl IndexError
   \<and> fst (get_messages starred (Some 500) (snd (delete_all_star_entries SaidYes sb1)))
       = Inl IndexError
   \<and> fst (post_new_entry \<lparr> msg_id = 2, msg_channel = 200 \<rparr> 500 sb1) = Inr ()"
  by (simp add: delete_all_star_entries_def is_dict_def post_new_entry_def starboard_send_def
        post_to_api_def cache_setitem_def list_position_def get_messages_def get_channel_def
        channel_get_message_def cache_getitem_def py_index_def sb1_def starred_def
        message_delete_def)

section \<open>Sync\<close>

text \<open>
  C10. For every member-remove event (the member's discriminator being a decimal digit
  string, as discord supplies it), the handler issues exactly one request, a PUT on
  that member's user endpoint, and the record it writes has \<open>in_guild = True\<close>:
  the departed member stays marked as present. This holds whatever the site answers.
\<close>

theorem on_member_remove_keeps_in_guild:
  assumes "discriminator m \<noteq> []" and "list_all is_digit (discriminator m)"
  shows "\<exists>u. fst (on_member_remove respond m) = [Put (BotUsersId (member_id m)) u]
             \<and> j_in_guild u = True \<and> j_id u = member_id m"
  using assms by (simp add: on_member_remove_def py_int_def Let_def)

theorem on_member_remove_keeps_in_guild_witness:
  "\<exists>u. fst (on_member_remove (\<lambda>_. None)
            \<lparr> member_id = 7, member_name = ''lemon'', avatar = None,
              discriminator = ''0042'', roles = [\<lparr> role_id = 3, role_name = ''dev'' \<rparr>] \<rparr>)
          = [Put (BotUsersId 7) u] \<and> j_in_guild u = True \<and> j_id u = 7"
  using on_member_remove_keeps_in_guild
    [of "\<lparr> member_id = 7, member_name = ''lemon'', avatar = None,
          discriminator = ''0042'', roles = [\<lparr> role_id = 3, role_name = ''dev'' \<rparr>] \<rparr>"
        "\<lambda>_. None"]
  by (simp add: is_digit_def)

end
